theory Spec2Isabelle
  imports Complex_Main
begin

section \<open>The confetti particle system (\<open>useConfetti\<close>)\<close>

text \<open>
  A shallow embedding of the hook \<open>useConfetti\<close>: its four refs and its one piece of React
  state form the record \<open>hook\<close>; the parts of the browser the hook touches (the children of
  \<open>document.body\<close>, the queue of animation-frame callbacks, the console, the number of
  \<open>Math.random()\<close> calls made so far) form the record \<open>page\<close>. Every operation maps a pair
  (hook, page) to the pair after it.

  JavaScript numbers are modelled as real numbers: rounding, infinities and NaN are not part
  of the model. What the browser answers when asked (viewport size, the motion preference,
  which drawing contexts a canvas hands out) is the record \<open>env\<close>, an argument of each
  operation; the values \<open>Math.random()\<close> returns are a sequence \<open>rnd\<close>, read at the index
  \<open>random_calls\<close>.

  The callback \<open>fire\<close> is made by a render of the component, and \<open>isActive\<close> is a constant
  of that render which the callback holds: it is the first argument of \<open>fire\<close> here, so a
  caller may use the callback of the first render (\<open>False\<close>) or of any later one. The field
  \<open>isActive\<close> of the hook is the state as last set by \<open>setIsActive\<close>; a callback never
  reads it.
\<close>

subsection \<open>Data\<close>

text \<open>The fields \<open>x\<close>, \<open>y\<close> and \<open>scale\<close> of a particle are \<open>p_x\<close>, \<open>p_y\<close> and \<open>p_scale\<close>
  here; the other names are those of the source. In \<open>env\<close>, \<open>webgl\<close> is what asking the new
  canvas for a WebGL context does (the two attempts of the source taken together), and
  \<open>context_2d\<close> says whether \<open>getContext('2d')\<close> returns a context. In \<open>page\<close>, \<open>body\<close> lists
  the canvas elements attached to the document body and \<open>pending\<close> the handles of the
  animation-frame callbacks that are queued.\<close>

record Particle =
  p_x :: real
  p_y :: real
  vx :: real
  vy :: real
  rotation :: real
  rotationSpeed :: real
  p_scale :: real
  shape :: real
  hue :: real
  saturation :: real
  lightness :: real
  alpha :: real
  life :: real
  maxLife :: real

datatype shape_name = Circle | Square | Triangle

record ConfettiOptions =
  particleCount :: "real option"
  duration :: "real option"
  spread :: "real option"
  startVelocity :: "real option"
  gravity :: "real option"
  iridescent :: "bool option"
  origin :: "(real \<times> real) option"
  shapes :: "shape_name list option"
  colors :: "string list option"

definition no_options :: ConfettiOptions where
  "no_options = \<lparr>particleCount = None, duration = None, spread = None, startVelocity = None,
     gravity = None, iridescent = None, origin = None, shapes = None, colors = None\<rparr>"

record canvas =
  elem_id :: nat
  width :: real
  height :: real

datatype context_result = Context | Null | Throws

record env =
  innerWidth :: real
  innerHeight :: real
  webgl :: context_result
  context_2d :: bool
  prefersReducedMotion :: bool

record hook =
  canvasRef :: "canvas option"
  glRef :: "nat option"
  particlesRef :: "Particle list"
  rafRef :: "nat option"
  isActive :: bool

record page =
  body :: "nat list"
  next_elem :: nat
  pending :: "nat list"
  next_raf :: nat
  console :: "string list"
  random_calls :: nat

definition hook_init :: hook where
  "hook_init = \<lparr>canvasRef = None, glRef = None, particlesRef = [], rafRef = None,
     isActive = False\<rparr>"

definition page_init :: page where
  "page_init = \<lparr>body = [], next_elem = 0, pending = [], next_raf = 1, console = [],
     random_calls = 0\<rparr>"

subsection \<open>Browser primitives\<close>

text \<open>\<open>requestAnimationFrame\<close> queues a callback and returns its handle, a fresh non-zero
  number; \<open>cancelAnimationFrame\<close> takes the callback with that handle out of the queue.\<close>

definition requestAnimationFrame :: "page \<Rightarrow> nat \<times> page" where
  "requestAnimationFrame w =
     (next_raf w, w\<lparr>pending := pending w @ [next_raf w], next_raf := Suc (next_raf w)\<rparr>)"

definition cancelAnimationFrame :: "nat \<Rightarrow> page \<Rightarrow> page" where
  "cancelAnimationFrame i w = w\<lparr>pending := removeAll i (pending w)\<rparr>"

text \<open>The remainder operator \<open>%\<close> of JavaScript truncates the quotient towards zero.\<close>

definition js_rem :: "real \<Rightarrow> real \<Rightarrow> real" where
  "js_rem a b = a - b * of_int (if 0 \<le> a / b then \<lfloor>a / b\<rfloor> else \<lceil>a / b\<rceil>)"

subsection \<open>The effect: creating and removing the canvas\<close>

definition useEffect_mount :: "env \<Rightarrow> hook \<times> page \<Rightarrow> hook \<times> page" where
  "useEffect_mount e s =
     (case s of (h, w) \<Rightarrow>
        (if canvasRef h = None then
           let c = \<lparr>elem_id = next_elem w, width = innerWidth e, height = innerHeight e\<rparr>;
               w1 = w\<lparr>body := body w @ [elem_id c], next_elem := Suc (next_elem w)\<rparr>;
               h1 = h\<lparr>canvasRef := Some c\<rparr>
           in (case webgl e of
                 Context \<Rightarrow> (h1\<lparr>glRef := Some (elem_id c)\<rparr>, w1)
               | Null \<Rightarrow> (h1\<lparr>glRef := None\<rparr>, w1)
               | Throws \<Rightarrow>
                   (h1, w1\<lparr>console := console w1 @
                      [''WebGL not supported, falling back to 2D canvas'']\<rparr>))
         else (h, w)))"

definition useEffect_cleanup :: "hook \<times> page \<Rightarrow> hook \<times> page" where
  "useEffect_cleanup s =
     (case s of (h, w) \<Rightarrow>
        let w1 = (case canvasRef h of
                    Some c \<Rightarrow>
                      if elem_id c \<in> set (body w)
                      then w\<lparr>body := remove1 (elem_id c) (body w)\<rparr> else w
                  | None \<Rightarrow> w);
            w2 = (case rafRef h of
                    Some i \<Rightarrow> if i \<noteq> 0 then cancelAnimationFrame i w1 else w1
                  | None \<Rightarrow> w1)
        in (h, w2))"

subsection \<open>The driver step\<close>

definition update_particle :: "Particle \<Rightarrow> Particle" where
  "update_particle p =
     (let p1 = p\<lparr>vy := vy p + 3 / 10\<rparr>;
          p2 = p1\<lparr>p_x := p_x p1 + vx p1\<rparr>;
          p3 = p2\<lparr>p_y := p_y p2 + vy p2\<rparr>;
          p4 = p3\<lparr>rotation := rotation p3 + rotationSpeed p3\<rparr>;
          p5 = p4\<lparr>life := life p4 + 1\<rparr>
      in if life p5 < maxLife p5
         then let lifeRatio = life p5 / maxLife p5;
                  p6 = p5\<lparr>hue := js_rem (hue p5 + 2) 360\<rparr>
              in p6\<lparr>alpha := max 0 (1 - lifeRatio)\<rparr>
         else p5)"

definition keep_particle :: "canvas \<Rightarrow> Particle \<Rightarrow> bool" where
  "keep_particle c p = (\<not> (p_y p > height c + 100 \<or> alpha p \<le> 0))"

text \<open>The callback passed to \<open>filter\<close> updates a particle and then decides whether it stays;
  the drawing calls that follow for a particle that stays write to the canvas bitmap only.\<close>

definition animate :: "env \<Rightarrow> hook \<times> page \<Rightarrow> hook \<times> page" where
  "animate e s =
     (case s of (h, w) \<Rightarrow>
        (case canvasRef h of
           None \<Rightarrow> (h, w)
         | Some c \<Rightarrow>
             if \<not> context_2d e then (h, w)
             else
               let ps = filter (keep_particle c) (map update_particle (particlesRef h));
                   h1 = h\<lparr>particlesRef := ps\<rparr>
               in if length ps > 0
                  then (case requestAnimationFrame w of
                          (i, w1) \<Rightarrow> (h1\<lparr>rafRef := Some i\<rparr>, w1))
                  else (h1\<lparr>isActive := False\<rparr>, w)))"

text \<open>One animation frame of the browser: the callbacks queued so far run, in order; what
  they queue runs in the next frame. Every queued callback is \<open>animate\<close>.\<close>

definition frame :: "env \<Rightarrow> hook \<times> page \<Rightarrow> hook \<times> page" where
  "frame e s =
     (case s of (h, w) \<Rightarrow> fold (\<lambda>_. animate e) (pending w) (h, w\<lparr>pending := []\<rparr>))"

subsection \<open>Emission\<close>

record emission =
  centerX :: real
  centerY :: real
  em_spread :: real
  em_startVelocity :: real
  em_iridescent :: bool
  em_shapes :: "shape_name list"
  em_duration :: real

text \<open>The body of the loop in \<open>fire\<close>: the particle, and the number of random draws made
  after it (the hue is drawn only when iridescent).\<close>

definition new_particle :: "emission \<Rightarrow> (nat \<Rightarrow> real) \<Rightarrow> nat \<Rightarrow> Particle \<times> nat" where
  "new_particle m rnd k =
     (let angle = (rnd k * em_spread m - em_spread m / 2) * (pi / 180);
          velocity = rnd (k + 1) * em_startVelocity m + em_startVelocity m / 2
      in (\<lparr>p_x = centerX m,
           p_y = centerY m,
           vx = sin angle * velocity,
           vy = - cos angle * velocity,
           rotation = rnd (k + 2) * pi * 2,
           rotationSpeed = (rnd (k + 3) - 1 / 2) * (2 / 10),
           p_scale = rnd (k + 4) * (1 / 2) + 3 / 4,
           shape = of_int \<lfloor>rnd (k + 5) * real (length (em_shapes m))\<rfloor>,
           hue = (if em_iridescent m then rnd (k + 6) * 360 else 0),
           saturation = (if em_iridescent m then 100 else 0),
           lightness = (if em_iridescent m then 60 else 50),
           alpha = 1,
           life = 0,
           maxLife = em_duration m / (1667 / 100)\<rparr>,
          if em_iridescent m then k + 7 else k + 6))"

function create_particles ::
  "emission \<Rightarrow> (nat \<Rightarrow> real) \<Rightarrow> real \<Rightarrow> nat \<Rightarrow> nat \<Rightarrow> Particle list \<Rightarrow> Particle list \<times> nat"
where
  "create_particles m rnd count i k newParticles =
     (if real i < count
      then (case new_particle m rnd k of
              (particle, k') \<Rightarrow>
                create_particles m rnd count (Suc i) k' (newParticles @ [particle]))
      else (newParticles, k))"
  by pat_completeness auto
termination
proof (relation "measure (\<lambda>(m, rnd, count, i, k, ps). nat \<lceil>count\<rceil> - i)")
  show "wf (measure (\<lambda>(m, rnd, count, i, k, ps). nat \<lceil>count\<rceil> - i))"
    by simp
next
  fix m :: emission and rnd :: "nat \<Rightarrow> real" and count :: real and i k :: nat
    and newParticles :: "Particle list" and x :: "Particle \<times> nat" and particle k'
  assume "real i < count"
  then have "int i < \<lceil>count\<rceil>"
    by (simp add: less_ceiling_iff)
  then have "i < nat \<lceil>count\<rceil>"
    by simp
  then show "((m, rnd, count, Suc i, k', newParticles @ [particle]),
              (m, rnd, count, i, k, newParticles))
             \<in> measure (\<lambda>(m, rnd, count, i, k, ps). nat \<lceil>count\<rceil> - i)"
    by simp
qed

declare create_particles.simps [simp del]

definition fire ::
  "bool \<Rightarrow> env \<Rightarrow> (nat \<Rightarrow> real) \<Rightarrow> ConfettiOptions option \<Rightarrow> hook \<times> page \<Rightarrow> hook \<times> page"
where
  "fire captured e rnd options s =
     (case s of (h, w) \<Rightarrow>
        let opts = (case options of None \<Rightarrow> no_options | Some v \<Rightarrow> v);
            particleCount' = (case particleCount opts of None \<Rightarrow> 150 | Some v \<Rightarrow> v);
            duration' = (case duration opts of None \<Rightarrow> 4000 | Some v \<Rightarrow> v);
            spread' = (case spread opts of None \<Rightarrow> 60 | Some v \<Rightarrow> v);
            startVelocity' = (case startVelocity opts of None \<Rightarrow> 30 | Some v \<Rightarrow> v);
            iridescent' = (case iridescent opts of None \<Rightarrow> True | Some v \<Rightarrow> v);
            origin' = (case origin opts of None \<Rightarrow> (1 / 2, 1 / 2) | Some v \<Rightarrow> v);
            shapes' = (case shapes opts of None \<Rightarrow> [Circle, Square, Triangle] | Some v \<Rightarrow> v)
        in (case canvasRef h of
              None \<Rightarrow> (h, w)
            | Some c \<Rightarrow>
                if prefersReducedMotion e
                then (h, w\<lparr>console := console w @
                        [''Confetti disabled due to prefers-reduced-motion'']\<rparr>)
                else
                  let m = \<lparr>centerX = width c * fst origin', centerY = height c * snd origin',
                           em_spread = spread', em_startVelocity = startVelocity',
                           em_iridescent = iridescent', em_shapes = shapes',
                           em_duration = duration'\<rparr>
                  in (case create_particles m rnd particleCount' 0 (random_calls w) [] of
                        (newParticles, k) \<Rightarrow>
                          let h1 = h\<lparr>particlesRef := particlesRef h @ newParticles\<rparr>;
                              w1 = w\<lparr>random_calls := k\<rparr>
                          in if \<not> captured
                             then (case requestAnimationFrame w1 of
                                     (i, w2) \<Rightarrow> (h1\<lparr>isActive := True, rafRef := Some i\<rparr>, w2))
                             else (h1, w1))))"

subsection \<open>What a call of \<open>fire\<close> resolves and appends\<close>

text \<open>The emission that \<open>fire\<close> builds from the options and the canvas, the bound of its
  loop, the batch the loop returns, and the particles a call appends to the pool.\<close>

definition emission_of :: "canvas \<Rightarrow> ConfettiOptions \<Rightarrow> emission" where
  "emission_of c opts =
     \<lparr>centerX = width c * fst (case origin opts of None \<Rightarrow> (1 / 2, 1 / 2) | Some v \<Rightarrow> v),
      centerY = height c * snd (case origin opts of None \<Rightarrow> (1 / 2, 1 / 2) | Some v \<Rightarrow> v),
      em_spread = (case spread opts of None \<Rightarrow> 60 | Some v \<Rightarrow> v),
      em_startVelocity = (case startVelocity opts of None \<Rightarrow> 30 | Some v \<Rightarrow> v),
      em_iridescent = (case iridescent opts of None \<Rightarrow> True | Some v \<Rightarrow> v),
      em_shapes = (case shapes opts of None \<Rightarrow> [Circle, Square, Triangle] | Some v \<Rightarrow> v),
      em_duration = (case duration opts of None \<Rightarrow> 4000 | Some v \<Rightarrow> v)\<rparr>"

definition count_of :: "ConfettiOptions option \<Rightarrow> real" where
  "count_of options =
     (case particleCount (case options of None \<Rightarrow> no_options | Some v \<Rightarrow> v) of
        None \<Rightarrow> 150 | Some v \<Rightarrow> v)"

definition batch_of ::
  "canvas \<Rightarrow> (nat \<Rightarrow> real) \<Rightarrow> ConfettiOptions option \<Rightarrow> page \<Rightarrow> Particle list \<times> nat"
where
  "batch_of c rnd options w =
     create_particles (emission_of c (case options of None \<Rightarrow> no_options | Some v \<Rightarrow> v)) rnd
       (count_of options) 0 (random_calls w) []"

definition spawned ::
  "bool \<Rightarrow> env \<Rightarrow> (nat \<Rightarrow> real) \<Rightarrow> ConfettiOptions option \<Rightarrow> hook \<times> page \<Rightarrow>
     Particle list"
where
  "spawned a e rnd options s =
     drop (length (particlesRef (fst s))) (particlesRef (fst (fire a e rnd options s)))"

subsection \<open>Runs of the hook\<close>

text \<open>What happens to a mounted hook: a call of \<open>fire\<close>, through the callback of a render
  that saw \<open>isActive\<close> with the given value, or an animation frame.\<close>

datatype event = Fire bool env "nat \<Rightarrow> real" "ConfettiOptions option" | Frame env

fun step :: "event \<Rightarrow> hook \<times> page \<Rightarrow> hook \<times> page" where
  "step (Fire a e rnd options) s = fire a e rnd options s"
| "step (Frame e) s = frame e s"

definition run :: "event list \<Rightarrow> hook \<times> page \<Rightarrow> hook \<times> page" where
  "run evs s = fold step evs s"

text \<open>The fade of a particle: its life is not negative, and while it is below \<open>maxLife\<close>
  its alpha is at least the value of the linear fade.\<close>

definition fade_inv :: "Particle \<Rightarrow> bool" where
  "fade_inv p =
     (0 \<le> life p \<and>
      (if life p < maxLife p then 1 - life p / maxLife p \<le> alpha p else True))"

subsection \<open>Concrete browsers, options and states\<close>

definition env_on :: env where
  "env_on = \<lparr>innerWidth = 800, innerHeight = 1000, webgl = Null, context_2d = True,
     prefersReducedMotion = False\<rparr>"

definition env_reduced :: env where
  "env_reduced = \<lparr>innerWidth = 800, innerHeight = 1000, webgl = Null, context_2d = True,
     prefersReducedMotion = True\<rparr>"

text \<open>A browser that hands the canvas a WebGL context at mount and, from then on, no 2D
  context.\<close>

definition env_webgl :: env where
  "env_webgl = \<lparr>innerWidth = 800, innerHeight = 1000, webgl = Context, context_2d = False,
     prefersReducedMotion = False\<rparr>"

definition rnd_half :: "nat \<Rightarrow> real" where
  "rnd_half k = 1 / 2"

definition the_canvas :: canvas where
  "the_canvas = \<lparr>elem_id = 0, width = 800, height = 1000\<rparr>"

definition mounted :: "hook \<times> page" where
  "mounted = useEffect_mount env_on (hook_init, page_init)"

definition five :: ConfettiOptions where
  "five = no_options\<lparr>particleCount := Some 5\<rparr>"

definition hundred :: ConfettiOptions where
  "hundred = no_options\<lparr>particleCount := Some 100\<rparr>"

definition just_one :: ConfettiOptions where
  "just_one = no_options\<lparr>particleCount := Some 1\<rparr>"

definition grey_one :: ConfettiOptions where
  "grey_one = no_options\<lparr>particleCount := Some 1, iridescent := Some False\<rparr>"

definition no_particles :: ConfettiOptions where
  "no_particles = no_options\<lparr>particleCount := Some 0\<rparr>"

definition two_and_a_half :: ConfettiOptions where
  "two_and_a_half = no_options\<lparr>particleCount := Some (5 / 2)\<rparr>"

definition short_burst :: ConfettiOptions where
  "short_burst = no_options\<lparr>particleCount := Some 1, duration := Some 50\<rparr>"

text \<open>The particle that \<open>fire\<close> spawns on \<open>the_canvas\<close> for \<open>short_burst\<close> when every random
  draw is one half, and a particle that has faded out.\<close>

definition first_particle :: Particle where
  "first_particle = \<lparr>p_x = 400, p_y = 500, vx = 0, vy = - 30, rotation = pi,
     rotationSpeed = 0, p_scale = 1, shape = 1, hue = 180, saturation = 100, lightness = 60,
     alpha = 1, life = 0, maxLife = 5000 / 1667\<rparr>"

definition faded_particle :: Particle where
  "faded_particle = \<lparr>p_x = 400, p_y = 500, vx = 0, vy = 0, rotation = 0,
     rotationSpeed = 0, p_scale = 1, shape = 0, hue = 0, saturation = 0, lightness = 50,
     alpha = 0, life = 2, maxLife = 2\<rparr>"

section \<open>Facts about the model\<close>

subsection \<open>The emission loop\<close>

lemma create_particles_length:
  "length (fst (create_particles m rnd count i k acc)) = length acc + (nat \<lceil>count\<rceil> - i)"
proof (induction m rnd count i k acc rule: create_particles.induct)
  case (1 m rnd count i k acc)
  show ?case
  proof (cases "real i < count")
    case True
    then have "int i < \<lceil>count\<rceil>" by (simp add: less_ceiling_iff)
    then have lt: "i < nat \<lceil>count\<rceil>" by simp
    obtain p k' where nk: "new_particle m rnd k = (p, k')" by (cases "new_particle m rnd k")
    have "length (fst (create_particles m rnd count (Suc i) k' (acc @ [p]))) =
          length (acc @ [p]) + (nat \<lceil>count\<rceil> - Suc i)"
      using "1.IH" [OF True nk [symmetric]] .
    with True nk lt show ?thesis
      by (simp add: create_particles.simps [of m rnd count i k acc])
  next
    case False
    then have "count \<le> real i" by simp
    then have "\<lceil>count\<rceil> \<le> int i" by (simp add: ceiling_le_iff)
    then have "nat \<lceil>count\<rceil> \<le> i" by (simp only: nat_le_iff)
    then have "nat \<lceil>count\<rceil> - i = 0" by (simp only: diff_is_0_eq)
    with False show ?thesis
      by (simp add: create_particles.simps [of m rnd count i k acc])
  qed
qed

lemma create_particles_prefix:
  "take (length acc) (fst (create_particles m rnd count i k acc)) = acc"
proof (induction m rnd count i k acc rule: create_particles.induct)
  case (1 m rnd count i k acc)
  show ?case
  proof (cases "real i < count")
    case True
    obtain p k' where nk: "new_particle m rnd k = (p, k')" by (cases "new_particle m rnd k")
    have "take (length (acc @ [p])) (fst (create_particles m rnd count (Suc i) k' (acc @ [p]))) = acc @ [p]"
      using "1.IH" [OF True nk [symmetric]] .
    then have "take (length acc) (take (length (acc @ [p])) (fst (create_particles m rnd count (Suc i) k' (acc @ [p])))) = take (length acc) (acc @ [p])"
      by simp
    then have "take (length acc) (fst (create_particles m rnd count (Suc i) k' (acc @ [p]))) = acc"
      by (simp add: min_def)
    with True nk show ?thesis
      by (simp add: create_particles.simps [of m rnd count i k acc])
  next
    case False
    then show ?thesis
      by (simp add: create_particles.simps [of m rnd count i k acc])
  qed
qed

lemma create_particles_all:
  assumes "\<And>q. q \<in> set acc \<Longrightarrow> P q" and "\<And>j. P (fst (new_particle m rnd j))"
  shows "p \<in> set (fst (create_particles m rnd count i k acc)) \<Longrightarrow> P p"
  using assms
proof (induction m rnd count i k acc rule: create_particles.induct)
  case (1 m rnd count i k acc)
  show ?case
  proof (cases "real i < count")
    case True
    obtain q k' where nk: "new_particle m rnd k = (q, k')" by (cases "new_particle m rnd k")
    have Pq: "P q" using "1.prems"(3) [of k] nk by simp
    have mem: "p \<in> set (fst (create_particles m rnd count (Suc i) k' (acc @ [q])))"
      using "1.prems"(1) True nk by (simp add: create_particles.simps [of m rnd count i k acc])
    show ?thesis
    proof (rule "1.IH" [OF True nk [symmetric] mem])
      fix r assume "r \<in> set (acc @ [q])"
      then show "P r" using "1.prems"(2) Pq by auto
    next
      fix j show "P (fst (new_particle m rnd j))" by (rule "1.prems"(3))
    qed
  next
    case False
    with "1.prems" show ?thesis
      by (simp add: create_particles.simps [of m rnd count i k acc])
  qed
qed

subsection \<open>One particle under the driver step\<close>

lemma update_particle_fields:
  "vy (update_particle p) = vy p + 3 / 10"
  "p_x (update_particle p) = p_x p + vx p"
  "p_y (update_particle p) = p_y p + (vy p + 3 / 10)"
  "rotation (update_particle p) = rotation p + rotationSpeed p"
  "life (update_particle p) = life p + 1"
  "maxLife (update_particle p) = maxLife p"
  "saturation (update_particle p) = saturation p"
  "lightness (update_particle p) = lightness p"
  "vx (update_particle p) = vx p"
  "rotationSpeed (update_particle p) = rotationSpeed p"
  by (simp_all add: update_particle_def Let_def)

lemma update_particle_hue:
  "hue (update_particle p) = (if life p + 1 < maxLife p then js_rem (hue p + 2) 360 else hue p)"
  by (simp add: update_particle_def Let_def)

lemma update_particle_alpha:
  "alpha (update_particle p) =
     (if life p + 1 < maxLife p then max 0 (1 - (life p + 1) / maxLife p) else alpha p)"
  by (simp add: update_particle_def Let_def)

lemma iter_maxLife: "maxLife ((update_particle ^^ n) p) = maxLife p"
  by (induction n) (simp_all add: update_particle_fields)

lemma iter_life: "life ((update_particle ^^ n) p) = life p + real n"
  by (induction n) (simp_all add: update_particle_fields)

lemma iter_saturation: "saturation ((update_particle ^^ n) p) = saturation p"
  by (induction n) (simp_all add: update_particle_fields)

lemma js_rem_nat: "js_rem (real a) 360 = real (a mod 360)"
proof -
  have f: "\<lfloor>real a / 360\<rfloor> = int (a div 360)"
    using floor_divide_of_nat_eq [of a 360, where ?'a = real] by simp
  have "real a = real (360 * (a div 360) + a mod 360)" by simp
  then have "real a - 360 * real (a div 360) = real (a mod 360)"
    by (simp only: of_nat_add of_nat_mult)
  then show ?thesis by (simp add: js_rem_def f)
qed

lemma iter_hue:
  assumes "life p = 0" "hue p = 0"
  shows "real n < maxLife p \<Longrightarrow> hue ((update_particle ^^ n) p) = real ((2 * n) mod 360)"
proof (induction n)
  case 0
  then show ?case using assms by simp
next
  case (Suc n)
  then have lt: "real n < maxLife p" by simp
  have l: "life ((update_particle ^^ n) p) + 1 < maxLife ((update_particle ^^ n) p)"
    using Suc.prems assms by (simp add: iter_life iter_maxLife)
  have "hue ((update_particle ^^ Suc n) p) = js_rem (hue ((update_particle ^^ n) p) + 2) 360"
    using l by (simp add: update_particle_hue)
  also have "\<dots> = js_rem (real ((2 * n) mod 360 + 2)) 360"
    using Suc.IH [OF lt] by (simp add: add.commute)
  also have "\<dots> = real (((2 * n) mod 360 + 2) mod 360)"
    by (rule js_rem_nat)
  also have "((2 * n) mod 360 + 2) mod 360 = (2 * Suc n) mod 360"
  proof -
    have "((2 * n) mod 360 + 2) mod 360 = (2 * n + 2) mod 360"
      by (rule mod_add_left_eq)
    then show ?thesis by simp
  qed
  finally show ?case .
qed

lemma alpha_pos_step:
  assumes "0 \<le> life p" "alpha (update_particle p) \<le> 0"
  shows "maxLife p \<le> life (update_particle p)"
proof (rule ccontr)
  assume "\<not> maxLife p \<le> life (update_particle p)"
  then have lt: "life p + 1 < maxLife p" by (simp add: update_particle_fields)
  then have mp: "0 < maxLife p" using assms(1) by linarith
  have "(life p + 1) / maxLife p < 1" using lt mp by simp
  then have "0 < 1 - (life p + 1) / maxLife p" by simp
  then have "0 < alpha (update_particle p)" using lt by (simp add: update_particle_alpha)
  with assms(2) show False by simp
qed

lemma iter_alpha_linear:
  assumes "life p = 0" "alpha p = 1"
  shows "real n < maxLife p \<Longrightarrow> alpha ((update_particle ^^ n) p) = 1 - real n / maxLife p"
proof (induction n)
  case 0
  then show ?case using assms by simp
next
  case (Suc n)
  have l: "life ((update_particle ^^ n) p) + 1 < maxLife ((update_particle ^^ n) p)"
    using Suc.prems assms by (simp add: iter_life iter_maxLife)
  have mp: "0 < maxLife p" using Suc.prems by (simp add: less_le_trans [of 0 "1 + real n"] order_less_imp_le)
  have "real (Suc n) / maxLife p < 1" using Suc.prems mp by simp
  then have "0 \<le> 1 - real (Suc n) / maxLife p" by simp
  then show ?case using l assms
    by (simp add: update_particle_alpha iter_life iter_maxLife max_def add.commute)
qed

lemma fade_step:
  assumes "fade_inv p"
  shows "fade_inv (update_particle p) \<and> alpha (update_particle p) \<le> alpha p"
proof (cases "life p + 1 < maxLife p")
  case True
  from assms have l0: "0 \<le> life p" by (simp add: fade_inv_def)
  from True l0 have mp: "0 < maxLife p" by linarith
  from True have lt: "life p < maxLife p" by simp
  with assms have a: "1 - life p / maxLife p \<le> alpha p" by (simp add: fade_inv_def)
  have r1: "(life p + 1) / maxLife p < 1" using True mp by simp
  have r2: "life p / maxLife p \<le> (life p + 1) / maxLife p"
    using mp by (simp add: divide_le_cancel)
  have al: "alpha (update_particle p) = 1 - (life p + 1) / maxLife p"
    using True r1 by (simp add: update_particle_alpha max_def)
  have "alpha (update_particle p) \<le> alpha p" using al a r2 by linarith
  moreover have "fade_inv (update_particle p)"
    using l0 al by (simp add: fade_inv_def update_particle_fields)
  ultimately show ?thesis by simp
next
  case False
  from assms have l0: "0 \<le> life p" by (simp add: fade_inv_def)
  from False have "alpha (update_particle p) = alpha p" by (simp add: update_particle_alpha)
  moreover have "fade_inv (update_particle p)"
    using l0 False by (simp add: fade_inv_def update_particle_fields)
  ultimately show ?thesis by simp
qed

lemma fade_iter: "fade_inv p \<Longrightarrow> fade_inv ((update_particle ^^ n) p)"
  by (induction n) (simp_all add: fade_step)

lemma fade_spawn: "life p = 0 \<Longrightarrow> alpha p = 1 \<Longrightarrow> fade_inv p"
  by (simp add: fade_inv_def)

lemma alpha_stays_positive:
  assumes "0 \<le> life p" "0 < alpha p"
  shows "0 < alpha ((update_particle ^^ n) p)"
proof (induction n)
  case 0 then show ?case using assms by simp
next
  case (Suc n)
  let ?q = "(update_particle ^^ n) p"
  have l0: "0 \<le> life ?q" using assms by (simp add: iter_life)
  show ?case
  proof (rule ccontr)
    assume "\<not> 0 < alpha ((update_particle ^^ Suc n) p)"
    then have le: "alpha (update_particle ?q) \<le> 0" by simp
    from alpha_pos_step [OF l0 le] have "\<not> life ?q + 1 < maxLife ?q"
      by (simp add: update_particle_fields)
    then have "alpha (update_particle ?q) = alpha ?q" by (simp add: update_particle_alpha)
    with le Suc.IH show False by simp
  qed
qed

subsection \<open>\<open>fire\<close> and \<open>animate\<close> by cases\<close>

lemma fire_no_canvas: "canvasRef h = None \<Longrightarrow> fire a e rnd options (h, w) = (h, w)"
  by (simp add: fire_def Let_def)

lemma fire_reduced:
  "canvasRef h = Some c \<Longrightarrow> prefersReducedMotion e \<Longrightarrow>
   fire a e rnd options (h, w) =
     (h, w\<lparr>console := console w @ [''Confetti disabled due to prefers-reduced-motion'']\<rparr>)"
  by (simp add: fire_def Let_def)

lemma fire_spawn:
  "canvasRef h = Some c \<Longrightarrow> \<not> prefersReducedMotion e \<Longrightarrow>
   fire a e rnd options (h, w) =
     (if a
      then (h\<lparr>particlesRef := particlesRef h @ fst (batch_of c rnd options w)\<rparr>,
            w\<lparr>random_calls := snd (batch_of c rnd options w)\<rparr>)
      else (h\<lparr>particlesRef := particlesRef h @ fst (batch_of c rnd options w),
              isActive := True, rafRef := Some (next_raf w)\<rparr>,
            w\<lparr>random_calls := snd (batch_of c rnd options w),
              pending := pending w @ [next_raf w], next_raf := Suc (next_raf w)\<rparr>))"
  by (simp add: fire_def Let_def batch_of_def count_of_def emission_of_def
      requestAnimationFrame_def split_beta)

lemma fire_cases:
  obtains "canvasRef h = None" "fire a e rnd options (h, w) = (h, w)"
  | c where "canvasRef h = Some c" "prefersReducedMotion e"
      "fire a e rnd options (h, w) =
         (h, w\<lparr>console := console w @ [''Confetti disabled due to prefers-reduced-motion'']\<rparr>)"
  | c where "canvasRef h = Some c" "\<not> prefersReducedMotion e" "a"
      "fire a e rnd options (h, w) =
         (h\<lparr>particlesRef := particlesRef h @ fst (batch_of c rnd options w)\<rparr>,
            w\<lparr>random_calls := snd (batch_of c rnd options w)\<rparr>)"
  | c where "canvasRef h = Some c" "\<not> prefersReducedMotion e" "\<not> a"
      "fire a e rnd options (h, w) =
         (h\<lparr>particlesRef := particlesRef h @ fst (batch_of c rnd options w),
              isActive := True, rafRef := Some (next_raf w)\<rparr>,
            w\<lparr>random_calls := snd (batch_of c rnd options w),
              pending := pending w @ [next_raf w], next_raf := Suc (next_raf w)\<rparr>)"
proof (cases "canvasRef h")
  case None
  then show ?thesis using that(1) fire_no_canvas by blast
next
  case (Some c)
  show ?thesis
  proof (cases "prefersReducedMotion e")
    case True
    then show ?thesis using that(2) Some fire_reduced by blast
  next
    case False
    show ?thesis
    proof (cases a)
      case True
      then show ?thesis using that(3) [OF Some False] fire_spawn [OF Some False] by simp
    next
      case f: False
      then show ?thesis using that(4) [OF Some False] fire_spawn [OF Some False] by simp
    qed
  qed
qed

lemma fire_canvasRef: "canvasRef (fst (fire a e rnd options s)) = canvasRef (fst s)"
proof (cases s)
  case (Pair h w)
  show ?thesis unfolding Pair by (rule fire_cases [of h a e rnd options w]) simp_all
qed

lemma fire_body: "body (snd (fire a e rnd options s)) = body (snd s)"
proof (cases s)
  case (Pair h w)
  show ?thesis unfolding Pair by (rule fire_cases [of h a e rnd options w]) simp_all
qed

lemma animate_no_canvas: "canvasRef h = None \<Longrightarrow> animate e (h, w) = (h, w)"
  by (simp add: animate_def)

lemma animate_no_ctx: "\<not> context_2d e \<Longrightarrow> animate e (h, w) = (h, w)"
  by (simp add: animate_def split: option.split)

lemma animate_run:
  "canvasRef h = Some c \<Longrightarrow> context_2d e \<Longrightarrow>
   animate e (h, w) =
     (if filter (keep_particle c) (map update_particle (particlesRef h)) \<noteq> []
      then (h\<lparr>particlesRef := filter (keep_particle c) (map update_particle (particlesRef h)),
              rafRef := Some (next_raf w)\<rparr>,
            w\<lparr>pending := pending w @ [next_raf w], next_raf := Suc (next_raf w)\<rparr>)
      else (h\<lparr>particlesRef := [], isActive := False\<rparr>, w))"
  by (simp add: animate_def Let_def requestAnimationFrame_def)

lemma animate_canvasRef: "canvasRef (fst (animate e s)) = canvasRef (fst s)"
  by (cases s) (simp add: animate_def Let_def requestAnimationFrame_def split: option.splits prod.splits)

lemma animate_body: "body (snd (animate e s)) = body (snd s)"
  by (cases s) (simp add: animate_def Let_def requestAnimationFrame_def split: option.splits prod.splits)

lemma fold_animate_body: "body (snd (fold (\<lambda>_. animate e) xs s)) = body (snd s)"
  by (induction xs arbitrary: s) (simp_all add: animate_body)

lemma frame_body: "body (snd (frame e s)) = body (snd s)"
  by (cases s) (simp add: frame_def fold_animate_body)

lemma fire_pool:
  assumes "canvasRef h = Some c" "\<not> prefersReducedMotion e"
  shows "particlesRef (fst (fire a e rnd options (h, w))) = particlesRef h @ fst (batch_of c rnd options w)"
  using assms by (simp add: fire_spawn)

lemma fire_pool_idle:
  assumes "canvasRef h = None \<or> prefersReducedMotion e"
  shows "particlesRef (fst (fire a e rnd options (h, w))) = particlesRef h"
  using assms by (cases "canvasRef h") (auto simp add: fire_no_canvas fire_reduced)

lemma batch_length: "length (fst (batch_of c rnd options w)) = nat \<lceil>count_of options\<rceil>"
  by (simp add: batch_of_def create_particles_length)

subsection \<open>Frames\<close>

lemma pending_reset: "pending w = [] \<Longrightarrow> w\<lparr>pending := []\<rparr> = w"
  by (cases w) simp

lemma frame_idle: "pending (snd s) = [] \<Longrightarrow> frame e s = s"
  by (cases s) (simp add: frame_def pending_reset)

lemma frame_single:
  "pending w = [i] \<Longrightarrow> frame e (h, w) = animate e (h, w\<lparr>pending := []\<rparr>)"
  by (simp add: frame_def)

lemma fold_animate_canvasRef:
  "canvasRef (fst (fold (\<lambda>_. animate e) xs s)) = canvasRef (fst s)"
  by (induction xs arbitrary: s) (simp_all add: animate_canvasRef)

lemma frame_canvasRef: "canvasRef (fst (frame e s)) = canvasRef (fst s)"
  by (cases s) (simp add: frame_def fold_animate_canvasRef)

lemma step_canvasRef: "canvasRef (fst (step ev s)) = canvasRef (fst s)"
  by (cases ev) (simp_all add: fire_canvasRef frame_canvasRef)

lemma step_body: "body (snd (step ev s)) = body (snd s)"
  by (cases ev) (simp_all add: fire_body frame_body)

lemma run_canvasRef: "canvasRef (fst (run evs s)) = canvasRef (fst s)"
  unfolding run_def by (induction evs arbitrary: s) (simp_all add: step_canvasRef)

lemma run_body: "body (snd (run evs s)) = body (snd s)"
  unfolding run_def by (induction evs arbitrary: s) (simp_all add: step_body)

lemma mount_again:
  assumes "canvasRef (fst s) \<noteq> None"
  shows "useEffect_mount e s = s"
proof (cases s)
  case (Pair h w)
  with assms obtain c where "canvasRef h = Some c" by auto
  with Pair show ?thesis by (simp add: useEffect_mount_def)
qed

lemma cleanup_body:
  assumes "canvasRef (fst s) = Some c"
  shows "body (snd (useEffect_cleanup s)) = remove1 (elem_id c) (body (snd s))"
proof (cases s)
  case (Pair h w)
  have r: "elem_id c \<notin> set (body w) \<Longrightarrow> remove1 (elem_id c) (body w) = body w"
    by (simp add: remove1_idem)
  show ?thesis
    using assms Pair r
    by (simp add: useEffect_cleanup_def Let_def cancelAnimationFrame_def split: option.split)
qed

lemma mount_state:
  "canvasRef (fst (useEffect_mount e (hook_init, w))) =
     Some \<lparr>elem_id = next_elem w, width = innerWidth e, height = innerHeight e\<rparr> \<and>
   body (snd (useEffect_mount e (hook_init, w))) = body w @ [next_elem w]"
  by (cases "webgl e") (simp_all add: useEffect_mount_def hook_init_def Let_def)

subsection \<open>The particles a call spawns\<close>

lemma spawned_eq:
  assumes "canvasRef h = Some c" "\<not> prefersReducedMotion e"
  shows "spawned a e rnd options (h, w) = fst (batch_of c rnd options w)"
  using assms by (simp add: spawned_def fire_pool)

lemma spawned_idle:
  assumes "canvasRef h = None \<or> prefersReducedMotion e"
  shows "spawned a e rnd options (h, w) = []"
  using assms by (simp add: spawned_def fire_pool_idle)

lemma spawned_new_particle:
  assumes "p \<in> set (spawned a e rnd options (h, w))"
  shows "\<exists>c j. canvasRef h = Some c \<and>
           p = fst (new_particle
                      (emission_of c (case options of None \<Rightarrow> no_options | Some v \<Rightarrow> v)) rnd j)"
proof (cases "canvasRef h = None \<or> prefersReducedMotion e")
  case True
  with assms show ?thesis by (simp add: spawned_idle)
next
  case False
  then obtain c where c: "canvasRef h = Some c" and r: "\<not> prefersReducedMotion e" by auto
  let ?m = "emission_of c (case options of None \<Rightarrow> no_options | Some v \<Rightarrow> v)"
  from assms have mem: "p \<in> set (fst (create_particles ?m rnd (count_of options) 0
                                        (random_calls w) []))"
    by (simp add: spawned_eq [OF c r] batch_of_def)
  have "\<exists>j. p = fst (new_particle ?m rnd j)"
  proof (rule create_particles_all [where P = "\<lambda>q. \<exists>j. q = fst (new_particle ?m rnd j)",
        OF _ _ mem])
    fix q :: Particle
    assume "q \<in> set []"
    then show "\<exists>j. q = fst (new_particle ?m rnd j)" by simp
  next
    fix j
    show "\<exists>i. fst (new_particle ?m rnd j) = fst (new_particle ?m rnd i)" by blast
  qed
  with c show ?thesis by blast
qed

lemma new_particle_start:
  "life (fst (new_particle m rnd j)) = 0"
  "alpha (fst (new_particle m rnd j)) = 1"
  "maxLife (fst (new_particle m rnd j)) = em_duration m / (1667 / 100)"
  "saturation (fst (new_particle m rnd j)) = (if em_iridescent m then 100 else 0)"
  "\<not> em_iridescent m \<Longrightarrow> hue (fst (new_particle m rnd j)) = 0"
  by (simp_all add: new_particle_def Let_def)

lemma not_an_integer:
  fixes x :: real
  assumes "of_int n < x" "x < of_int (n + 1)"
  shows "x \<notin> \<int>"
proof
  assume "x \<in> \<int>"
  then obtain k where k: "x = of_int k" by (rule Ints_cases)
  from assms k have "n < k" "k < n + 1" by simp_all
  then show False by simp
qed

subsection \<open>Evaluations\<close>

lemmas eval_defs = the_canvas_def fire_def Let_def no_options_def
  create_particles.simps new_particle_def requestAnimationFrame_def rnd_half_def frame_def
  animate_def update_particle_def keep_particle_def js_rem_def env_on_def

lemma mounted_eq:
  "mounted =
     (\<lparr>canvasRef = Some the_canvas, glRef = None, particlesRef = [], rafRef = None,
       isActive = False\<rparr>,
      \<lparr>body = [0], next_elem = 1, pending = [], next_raf = 1, console = [],
       random_calls = 0\<rparr>)"
  by (simp add: mounted_def useEffect_mount_def hook_init_def page_init_def env_on_def Let_def
      the_canvas_def)

lemma fire_short_burst:
  "fire False env_on rnd_half (Some short_burst) mounted =
     (\<lparr>canvasRef = Some the_canvas, glRef = None, particlesRef = [first_particle],
       rafRef = Some 1, isActive = True\<rparr>,
      \<lparr>body = [0], next_elem = 1, pending = [1], next_raf = 2, console = [],
       random_calls = 7\<rparr>)"
  by (simp add: mounted_eq eval_defs short_burst_def first_particle_def)

lemma frame_short_burst:
  "frame env_on (fire False env_on rnd_half (Some short_burst) mounted) =
     (\<lparr>canvasRef = Some the_canvas, glRef = None,
       particlesRef = [first_particle\<lparr>p_y := 4703 / 10, vy := - 297 / 10, hue := 182,
          alpha := 3333 / 5000, life := 1\<rparr>],
       rafRef = Some 2, isActive = True\<rparr>,
      \<lparr>body = [0], next_elem = 1, pending = [2], next_raf = 3, console = [],
       random_calls = 7\<rparr>)"
  unfolding fire_short_burst
  by (simp add: frame_def animate_def the_canvas_def env_on_def Let_def update_particle_def
      keep_particle_def js_rem_def requestAnimationFrame_def first_particle_def)

lemma spawned_grey_one:
  "spawned False env_on rnd_half (Some grey_one) mounted =
     [\<lparr>p_x = 400, p_y = 500, vx = 0, vy = - 30, rotation = pi, rotationSpeed = 0,
       p_scale = 1, shape = 1, hue = 0, saturation = 0, lightness = 50, alpha = 1, life = 0,
       maxLife = 400000 / 1667\<rparr>]"
  by (simp add: spawned_def mounted_eq eval_defs grey_one_def)

lemma spawned_just_one:
  "spawned False env_on rnd_half (Some just_one) mounted =
     [\<lparr>p_x = 400, p_y = 500, vx = 0, vy = - 30, rotation = pi, rotationSpeed = 0,
       p_scale = 1, shape = 1, hue = 180, saturation = 100, lightness = 60, alpha = 1,
       life = 0, maxLife = 400000 / 1667\<rparr>]"
  by (simp add: spawned_def mounted_eq eval_defs just_one_def)

lemma fire_just_one:
  "fire False env_on rnd_half (Some just_one) mounted =
     (\<lparr>canvasRef = Some the_canvas, glRef = None,
       particlesRef = [first_particle\<lparr>maxLife := 400000 / 1667\<rparr>],
       rafRef = Some 1, isActive = True\<rparr>,
      \<lparr>body = [0], next_elem = 1, pending = [1], next_raf = 2, console = [],
       random_calls = 7\<rparr>)"
  by (simp add: mounted_eq eval_defs just_one_def first_particle_def)

section \<open>The claims\<close>

subsection \<open>C1: life and removal\<close>

text \<open>
  C1 says that a particle is removed no later than the frame in which \<open>life \<ge> maxLife\<close>.
  The driver step does add exactly 1 to \<open>life\<close>, but it writes \<open>alpha\<close> only while
  \<open>life < maxLife\<close>, so \<open>alpha\<close> stops above 0 and the test \<open>alpha \<le> 0\<close> never removes the
  particle. On a canvas of height 1000, \<open>fire({particleCount: 1, duration: 50})\<close> with every
  random draw one half gives one particle with \<open>maxLife = 50 / 16.67 < 3\<close>; after three
  frames it has \<open>life = 3\<close>, it is still in the pool with \<open>alpha = 1666 / 5000\<close>, and the
  driver has scheduled the next frame.
\<close>

theorem particle_outlives_maxLife:
  "frame env_on (frame env_on (frame env_on
      (fire False env_on rnd_half (Some short_burst) mounted))) =
     (\<lparr>canvasRef = Some the_canvas, glRef = None,
       particlesRef = [first_particle\<lparr>p_y := 4118 / 10, vy := - 291 / 10, hue := 184,
          alpha := 1666 / 5000, life := 3\<rparr>],
       rafRef = Some 4, isActive = True\<rparr>,
      \<lparr>body = [0], next_elem = 1, pending = [4], next_raf = 5, console = [],
       random_calls = 7\<rparr>) \<and>
   maxLife first_particle < 3"
  unfolding frame_short_burst
  by (simp add: frame_def animate_def the_canvas_def env_on_def Let_def update_particle_def
      keep_particle_def js_rem_def requestAnimationFrame_def first_particle_def)

subsection \<open>C2: a batch that is not iridescent\<close>

text \<open>
  Against C2 as stated: the particle spawned by \<open>fire({particleCount: 1, iridescent: false})\<close>
  has hue 0, and after one frame the particle in the pool has hue 2.
\<close>

theorem grey_hue_moves:
  "map hue (particlesRef (fst (fire False env_on rnd_half (Some grey_one) mounted))) = [0] \<and>
   map hue (particlesRef (fst (frame env_on
      (fire False env_on rnd_half (Some grey_one) mounted)))) = [2]"
  by (simp add: mounted_eq eval_defs grey_one_def)

text \<open>
  C2, amended: every particle of a batch spawned by \<open>fire\<close> with \<open>iridescent: false\<close> starts
  with hue 0 and saturation 0, and its saturation is 0 after any number of driver steps. Its
  hue is advanced by the driver step like that of any particle: after \<open>n\<close> steps, with
  \<open>n < maxLife\<close>, it is \<open>2 n mod 360\<close>, and a step that brings \<open>life\<close> to \<open>maxLife\<close> or beyond
  leaves it as it is.
\<close>

theorem grey_batch_colour:
  assumes "iridescent opts = Some False" and "p \<in> set (spawned a e rnd (Some opts) (h, w))"
  shows "hue p = 0 \<and> saturation p = 0 \<and>
         saturation ((update_particle ^^ n) p) = 0 \<and>
         (real n < maxLife p \<longrightarrow> hue ((update_particle ^^ n) p) = real ((2 * n) mod 360)) \<and>
         (maxLife p \<le> real (Suc n) \<longrightarrow>
            hue ((update_particle ^^ Suc n) p) = hue ((update_particle ^^ n) p))"
proof -
  from spawned_new_particle [OF assms(2)] obtain c j
    where p: "p = fst (new_particle (emission_of c opts) rnd j)" by auto
  have ni: "\<not> em_iridescent (emission_of c opts)"
    using assms(1) by (simp add: emission_of_def)
  have h0: "hue p = 0" and s0: "saturation p = 0" and l0: "life p = 0"
    using ni by (simp_all add: p new_particle_start)
  have a: "saturation ((update_particle ^^ n) p) = 0"
    using s0 by (simp add: iter_saturation)
  have b: "real n < maxLife p \<longrightarrow> hue ((update_particle ^^ n) p) = real ((2 * n) mod 360)"
    using iter_hue [OF l0 h0] by blast
  have c: "maxLife p \<le> real (Suc n) \<longrightarrow>
             hue ((update_particle ^^ Suc n) p) = hue ((update_particle ^^ n) p)"
    using l0 by (simp add: update_particle_hue iter_life iter_maxLife)
  from h0 s0 a b c show ?thesis by blast
qed

theorem grey_batch_colour_witness:
  "hd (spawned False env_on rnd_half (Some grey_one) mounted)
     \<in> set (spawned False env_on rnd_half (Some grey_one) mounted) \<and>
   hue (hd (spawned False env_on rnd_half (Some grey_one) mounted)) = 0 \<and>
   saturation (update_particle (hd (spawned False env_on rnd_half (Some grey_one) mounted))) = 0 \<and>
   hue (update_particle (hd (spawned False env_on rnd_half (Some grey_one) mounted))) = 2"
proof -
  have i: "iridescent grey_one = Some False"
    by (simp add: grey_one_def no_options_def)
  have m: "hd (spawned False env_on rnd_half (Some grey_one) mounted)
             \<in> set (spawned False env_on rnd_half (Some grey_one) (fst mounted, snd mounted))"
    by (simp add: spawned_grey_one)
  have l: "real 1 < maxLife (hd (spawned False env_on rnd_half (Some grey_one) mounted))"
    by (simp add: spawned_grey_one)
  show ?thesis
    using grey_batch_colour [OF i m, where n = 1] l m by simp
qed

subsection \<open>C3: when the driver is scheduled\<close>

text \<open>
  C3 says that a frame callback is scheduled whenever the pool is not empty and that the
  driver stops exactly when the pool becomes empty. The code does this on one path only
  (the end of \<open>animate\<close>, and the start of the driver in \<open>fire\<close>). In a browser that gives
  the canvas a WebGL context at mount and therefore no 2D context afterwards,
  \<open>fire({particleCount: 1})\<close> followed by one frame leaves the particle in the pool, no
  callback queued and \<open>isActive\<close> still true: \<open>animate\<close> returns early without the
  \<open>setIsActive(false)\<close> of its last branch, so the callback of the next render queues no
  callback either. With a 2D context, a callback made while the driver ran and called after
  it stopped (here after a burst of no particles and one frame) adds a particle and queues
  no callback, and two calls through the callback of one render queue two callbacks.
\<close>

theorem driver_not_scheduled:
  "length (particlesRef (fst (frame env_webgl (fire False env_webgl rnd_half (Some just_one)
       (useEffect_mount env_webgl (hook_init, page_init)))))) = 1 \<and>
   pending (snd (frame env_webgl (fire False env_webgl rnd_half (Some just_one)
       (useEffect_mount env_webgl (hook_init, page_init))))) = [] \<and>
   isActive (fst (frame env_webgl (fire False env_webgl rnd_half (Some just_one)
       (useEffect_mount env_webgl (hook_init, page_init))))) \<and>
   length (particlesRef (fst (fire True env_webgl rnd_half (Some just_one)
       (frame env_webgl (fire False env_webgl rnd_half (Some just_one)
          (useEffect_mount env_webgl (hook_init, page_init))))))) = 2 \<and>
   pending (snd (fire True env_webgl rnd_half (Some just_one)
       (frame env_webgl (fire False env_webgl rnd_half (Some just_one)
          (useEffect_mount env_webgl (hook_init, page_init)))))) = [] \<and>
   length (particlesRef (fst (fire True env_on rnd_half (Some just_one)
       (frame env_on (fire False env_on rnd_half (Some no_particles) mounted))))) = 1 \<and>
   pending (snd (fire True env_on rnd_half (Some just_one)
       (frame env_on (fire False env_on rnd_half (Some no_particles) mounted)))) = [] \<and>
   pending (snd (fire False env_on rnd_half (Some just_one)
       (fire False env_on rnd_half (Some just_one) mounted))) = [1, 2]"
proof -
  have gl: "frame env_webgl (fire False env_webgl rnd_half (Some just_one)
              (useEffect_mount env_webgl (hook_init, page_init))) =
            (\<lparr>canvasRef = Some the_canvas, glRef = Some 0,
              particlesRef = [first_particle\<lparr>maxLife := 400000 / 1667\<rparr>],
              rafRef = Some 1, isActive = True\<rparr>,
             \<lparr>body = [0], next_elem = 1, pending = [], next_raf = 2, console = [],
              random_calls = 7\<rparr>)"
    by (simp add: useEffect_mount_def hook_init_def page_init_def env_webgl_def Let_def
        fire_def just_one_def no_options_def create_particles.simps new_particle_def
        requestAnimationFrame_def rnd_half_def frame_def animate_def the_canvas_def
        first_particle_def)
  have a: "length (particlesRef (fst (fire True env_webgl rnd_half (Some just_one)
             (frame env_webgl (fire False env_webgl rnd_half (Some just_one)
                (useEffect_mount env_webgl (hook_init, page_init))))))) = 2 \<and>
           pending (snd (fire True env_webgl rnd_half (Some just_one)
             (frame env_webgl (fire False env_webgl rnd_half (Some just_one)
                (useEffect_mount env_webgl (hook_init, page_init)))))) = []"
    unfolding gl
    by (simp add: fire_def Let_def env_webgl_def just_one_def no_options_def
        create_particles.simps new_particle_def rnd_half_def the_canvas_def)
  have idle: "frame env_on (fire False env_on rnd_half (Some no_particles) mounted) =
              (\<lparr>canvasRef = Some the_canvas, glRef = None, particlesRef = [],
                rafRef = Some 1, isActive = False\<rparr>,
               \<lparr>body = [0], next_elem = 1, pending = [], next_raf = 2, console = [],
                random_calls = 0\<rparr>)"
    by (simp add: mounted_eq eval_defs no_particles_def)
  have b: "length (particlesRef (fst (fire True env_on rnd_half (Some just_one)
             (frame env_on (fire False env_on rnd_half (Some no_particles) mounted))))) = 1 \<and>
           pending (snd (fire True env_on rnd_half (Some just_one)
             (frame env_on (fire False env_on rnd_half (Some no_particles) mounted)))) = []"
    unfolding idle by (simp add: eval_defs just_one_def)
  have c: "pending (snd (fire False env_on rnd_half (Some just_one)
             (fire False env_on rnd_half (Some just_one) mounted))) = [1, 2]"
    unfolding fire_just_one by (simp add: eval_defs just_one_def)
  from gl a b c show ?thesis by simp
qed

subsection \<open>C4: how much the pool grows\<close>

text \<open>
  Against C4 as stated: before the effect has created the canvas, \<open>fire({particleCount: 5})\<close>
  with reduced motion off leaves the pool at its size, which is not that size plus 5.
\<close>

theorem no_canvas_no_growth:
  "length (particlesRef (fst (fire False env_on rnd_half (Some five) (hook_init, page_init)))) \<noteq>
   length (particlesRef hook_init) + 5"
  by (simp add: fire_def hook_init_def Let_def)

text \<open>
  C4, amended: once the canvas exists, for every emission configuration whose particle
  count (150 when the options or the count are left out) is a natural number \<open>n\<close>, the pool
  is, right after \<open>fire\<close>, longer by exactly \<open>n\<close>; whatever the count, it is longer by the
  number of rounds of the loop, which is the count rounded up to a natural number (0 for a
  negative count); it is longer by 0 when reduced motion is active, whatever the count;
  and the particles it held come first, unchanged. Two calls with count 5 leave 10.
\<close>

theorem fire_grows_pool:
  assumes "canvasRef h \<noteq> None"
  shows "length (particlesRef (fst (fire a e rnd options (h, w)))) =
           length (particlesRef h) +
           (if prefersReducedMotion e then 0 else nat \<lceil>count_of options\<rceil>) \<and>
         (count_of options = real n \<longrightarrow> nat \<lceil>count_of options\<rceil> = n) \<and>
         take (length (particlesRef h)) (particlesRef (fst (fire a e rnd options (h, w)))) =
           particlesRef h"
proof -
  have n: "count_of options = real n \<longrightarrow> nat \<lceil>count_of options\<rceil> = n"
    by simp
  show ?thesis
  proof (cases "prefersReducedMotion e")
    case True
    then show ?thesis using n by (simp add: fire_pool_idle)
  next
    case False
    from assms obtain c where c: "canvasRef h = Some c" by auto
    show ?thesis
      using False n by (simp add: fire_pool [OF c False] batch_length)
  qed
qed

theorem fire_grows_pool_witness:
  "length (particlesRef (fst (fire False env_on rnd_half None mounted))) = 150 \<and>
   length (particlesRef (fst (fire False env_on rnd_half (Some five) mounted))) = 5 \<and>
   length (particlesRef (fst (fire False env_on rnd_half (Some five)
      (fire False env_on rnd_half (Some five) mounted)))) = 10 \<and>
   length (particlesRef (fst (fire True env_reduced rnd_half (Some five)
      (fire False env_on rnd_half (Some five) mounted)))) = 5 \<and>
   length (particlesRef (fst (fire False env_on rnd_half (Some two_and_a_half) mounted))) = 3"
proof -
  obtain h1 w1 where s1: "fire False env_on rnd_half (Some five) mounted = (h1, w1)"
    by (cases "fire False env_on rnd_half (Some five) mounted")
  have c0: "canvasRef (fst mounted) \<noteq> None" by (simp add: mounted_eq)
  have c1: "canvasRef h1 \<noteq> None"
    using fire_canvasRef [of False env_on rnd_half "Some five" mounted] c0 s1 by simp
  have on: "\<not> prefersReducedMotion env_on" by (simp add: env_on_def)
  have red: "prefersReducedMotion env_reduced" by (simp add: env_reduced_def)
  have n150: "count_of None = real 150" by (simp add: count_of_def no_options_def)
  have n5: "count_of (Some five) = real 5" by (simp add: count_of_def five_def no_options_def)
  have n3: "nat \<lceil>count_of (Some two_and_a_half)\<rceil> = 3"
    by (simp add: count_of_def two_and_a_half_def no_options_def)
  have l0: "length (particlesRef (fst (fire False env_on rnd_half None mounted))) = 150"
    using fire_grows_pool [OF c0, where a = False and e = env_on and rnd = rnd_half
        and options = None and w = "snd mounted" and n = 150] n150 on
    by (simp add: mounted_eq)
  have l1: "length (particlesRef h1) = 5"
    using fire_grows_pool [OF c0, where a = False and e = env_on and rnd = rnd_half
        and options = "Some five" and w = "snd mounted" and n = 5] n5 on s1
    by (simp add: mounted_eq)
  have l2: "length (particlesRef (fst (fire False env_on rnd_half (Some five) (h1, w1)))) = 10"
    using fire_grows_pool [OF c1, where a = False and e = env_on and rnd = rnd_half
        and options = "Some five" and w = w1 and n = 5] n5 on l1
    by simp
  have l3: "length (particlesRef (fst (fire True env_reduced rnd_half (Some five) (h1, w1)))) = 5"
    using fire_grows_pool [OF c1, where a = True and e = env_reduced and rnd = rnd_half
        and options = "Some five" and w = w1 and n = 5] red l1
    by simp
  have l4: "length (particlesRef (fst (fire False env_on rnd_half (Some two_and_a_half)
              mounted))) = 3"
    using fire_grows_pool [OF c0, where a = False and e = env_on and rnd = rnd_half
        and options = "Some two_and_a_half" and w = "snd mounted" and n = 3] n3 on
    by (simp add: mounted_eq)
  from l0 l1 l2 l3 l4 s1 show ?thesis by simp
qed

subsection \<open>C5: reduced motion\<close>

text \<open>
  C5: when the reduced-motion preference is active, \<open>fire\<close> is a no-op whatever the
  options: the hook (pool, handle, \<open>isActive\<close>) is unchanged and the queue of callbacks is
  unchanged; the page changes by the one diagnostic line on the console, and only when the
  canvas exists.
\<close>

theorem fire_reduced_motion:
  assumes "prefersReducedMotion e"
  shows "fst (fire a e rnd options (h, w)) = h \<and>
         pending (snd (fire a e rnd options (h, w))) = pending w \<and>
         snd (fire a e rnd options (h, w)) =
           (if canvasRef h = None then w
            else w\<lparr>console := console w @
                   [''Confetti disabled due to prefers-reduced-motion'']\<rparr>)"
proof (cases "canvasRef h")
  case None
  then show ?thesis by (simp add: fire_no_canvas)
next
  case (Some c)
  then show ?thesis by (simp add: fire_reduced [OF Some assms])
qed

theorem fire_reduced_motion_witness:
  "prefersReducedMotion env_reduced \<and>
   length (particlesRef (fst (fire False env_reduced rnd_half (Some hundred) mounted))) = 0 \<and>
   pending (snd (fire False env_reduced rnd_half (Some hundred) mounted)) = []"
proof -
  have r: "prefersReducedMotion env_reduced" by (simp add: env_reduced_def)
  show ?thesis
    using fire_reduced_motion [OF r, where a = False and rnd = rnd_half and options = "Some hundred"
        and h = "fst mounted" and w = "snd mounted"] r
    by (simp add: mounted_eq)
qed

subsection \<open>C6: the canvas overlay\<close>

text \<open>
  Against C6 as stated: the canvas belongs to an instance of the hook, not to the page. Two
  instances mounted on one page leave two canvas elements in the body.
\<close>

theorem two_hooks_two_canvases:
  "body (snd (useEffect_mount env_on
      (hook_init, snd (useEffect_mount env_on (hook_init, page_init))))) = [0, 1]"
  by (simp add: useEffect_mount_def hook_init_def page_init_def env_on_def Let_def)

text \<open>
  C6, amended: every instance of the hook has at most one canvas overlay. Its effect adds
  one canvas to the body at mount; in every state reached from there by calls of \<open>fire\<close>
  (through the callback of any render) and frames, the instance still refers to that canvas,
  the body holds what it held before the mount and that one canvas, running the effect
  again changes nothing, and the cleanup at unmount leaves the body as it was before the
  mount. In any state at all, \<open>fire\<close> and a frame leave the body and the canvas reference
  as they are (a second \<open>fire\<close> uses the canvas there is).
\<close>

theorem one_canvas_per_hook:
  assumes "\<forall>i\<in>set (body w). i < next_elem w"
  shows "canvasRef (fst (run evs (useEffect_mount e (hook_init, w)))) =
           Some \<lparr>elem_id = next_elem w, width = innerWidth e, height = innerHeight e\<rparr> \<and>
         body (snd (run evs (useEffect_mount e (hook_init, w)))) = body w @ [next_elem w] \<and>
         useEffect_mount e' (run evs (useEffect_mount e (hook_init, w))) =
           run evs (useEffect_mount e (hook_init, w)) \<and>
         body (snd (useEffect_cleanup (run evs (useEffect_mount e (hook_init, w))))) =
           body w \<and>
         body (snd (fire a e' rnd options s)) = body (snd s) \<and>
         canvasRef (fst (fire a e' rnd options s)) = canvasRef (fst s) \<and>
         body (snd (frame e' s)) = body (snd s) \<and>
         canvasRef (fst (frame e' s)) = canvasRef (fst s)"
proof -
  let ?c = "\<lparr>elem_id = next_elem w, width = innerWidth e, height = innerHeight e\<rparr>"
  let ?s = "run evs (useEffect_mount e (hook_init, w))"
  from assms have nin: "next_elem w \<notin> set (body w)" by auto
  have c: "canvasRef (fst ?s) = Some ?c"
    using mount_state [of e w] by (simp add: run_canvasRef)
  have b: "body (snd ?s) = body w @ [next_elem w]"
    using mount_state [of e w] by (simp add: run_body)
  have m: "useEffect_mount e' ?s = ?s"
    using c by (simp add: mount_again)
  have u: "body (snd (useEffect_cleanup ?s)) = body w"
    using nin by (simp add: cleanup_body [OF c] b remove1_append)
  from c b m u show ?thesis
    by (simp add: fire_body fire_canvasRef frame_body frame_canvasRef)
qed

theorem one_canvas_per_hook_witness:
  "body (snd mounted) = [0] \<and>
   body (snd (run [Fire False env_on rnd_half (Some five), Frame env_on,
                   Fire True env_on rnd_half (Some five)] mounted)) = [0] \<and>
   useEffect_mount env_on
     (run [Fire False env_on rnd_half (Some five), Frame env_on,
           Fire True env_on rnd_half (Some five)] mounted) =
     run [Fire False env_on rnd_half (Some five), Frame env_on,
          Fire True env_on rnd_half (Some five)] mounted \<and>
   body (snd (useEffect_cleanup
     (run [Fire False env_on rnd_half (Some five), Frame env_on,
           Fire True env_on rnd_half (Some five)] mounted))) = []"
proof -
  have f: "\<forall>i\<in>set (body page_init). i < next_elem page_init" by (simp add: page_init_def)
  have b: "body (snd mounted) = [0]" by (simp add: mounted_eq)
  show ?thesis
    using one_canvas_per_hook [OF f, where a = False and e = env_on and e' = env_on
        and evs = "[Fire False env_on rnd_half (Some five), Frame env_on,
                    Fire True env_on rnd_half (Some five)]"] b
    by (simp add: mounted_def page_init_def)
qed

subsection \<open>C7: the life span in frames\<close>

text \<open>
  Against C7 as stated: with the default duration of 4000 ms the spawned particle has
  \<open>maxLife = 4000 / 16.67\<close>, which lies between 239 and 240 and is not an integer.
\<close>

theorem default_maxLife_not_integer:
  "maxLife (hd (spawned False env_on rnd_half (Some just_one) mounted)) \<notin> \<int>"
proof -
  have eq: "maxLife (hd (spawned False env_on rnd_half (Some just_one) mounted)) = 400000 / 1667"
    by (simp add: spawned_just_one)
  show ?thesis
    unfolding eq by (rule not_an_integer [of 239]) simp_all
qed

text \<open>
  C7, amended: every particle spawned by \<open>fire\<close> has \<open>maxLife\<close> equal to the configured
  duration in milliseconds (4000 by default) divided by 16.67, a fixed frame budget; the
  quotient is not rounded and need not be an integer.
\<close>

theorem spawned_maxLife:
  assumes "p \<in> set (spawned a e rnd options (h, w))"
  shows "maxLife p =
           (case duration (case options of None \<Rightarrow> no_options | Some v \<Rightarrow> v) of
              None \<Rightarrow> 4000 | Some d \<Rightarrow> d) / (1667 / 100)"
proof -
  from spawned_new_particle [OF assms] obtain c j
    where "p = fst (new_particle
                     (emission_of c (case options of None \<Rightarrow> no_options | Some v \<Rightarrow> v)) rnd j)"
    by auto
  then show ?thesis by (simp add: new_particle_start emission_of_def)
qed

theorem spawned_maxLife_witness:
  "hd (spawned False env_on rnd_half (Some short_burst) mounted)
     \<in> set (spawned False env_on rnd_half (Some short_burst) mounted) \<and>
   maxLife (hd (spawned False env_on rnd_half (Some short_burst) mounted)) = 50 / (1667 / 100) \<and>
   maxLife (hd (spawned False env_on rnd_half None (fire False env_on rnd_half None mounted))) =
     4000 / (1667 / 100)"
proof -
  have s: "spawned False env_on rnd_half (Some short_burst) mounted = [first_particle]"
    using fire_short_burst by (simp add: spawned_def mounted_eq)
  have m: "hd (spawned False env_on rnd_half (Some short_burst) mounted)
             \<in> set (spawned False env_on rnd_half (Some short_burst) (fst mounted, snd mounted))"
    by (simp add: s)
  obtain h1 w1 where s1: "fire False env_on rnd_half None mounted = (h1, w1)"
    by (cases "fire False env_on rnd_half None mounted")
  have c1: "canvasRef h1 = Some the_canvas"
    using fire_canvasRef [of False env_on rnd_half None mounted] s1 by (simp add: mounted_eq)
  have r: "\<not> prefersReducedMotion env_on" by (simp add: env_on_def)
  have "length (spawned False env_on rnd_half None (h1, w1)) = 150"
    by (simp add: spawned_eq [OF c1 r] batch_length count_of_def no_options_def)
  then have ne: "spawned False env_on rnd_half None (h1, w1) \<noteq> []" by auto
  then have m2: "hd (spawned False env_on rnd_half None (h1, w1))
                   \<in> set (spawned False env_on rnd_half None (h1, w1))"
    by simp
  show ?thesis
    using spawned_maxLife [OF m] spawned_maxLife [OF m2] m s1
    by (simp add: short_burst_def no_options_def)
qed

subsection \<open>C8: the order of the driver step\<close>

text \<open>
  C8: the driver step replaces the pool by its particles, each updated and then kept or
  dropped; the update adds the fixed gravity 0.3 to \<open>vy\<close>, then \<open>vx\<close> to \<open>x\<close>, then the new
  \<open>vy\<close> to \<open>y\<close>, then \<open>rotationSpeed\<close> to \<open>rotation\<close>, then 1 to \<open>life\<close>; and what \<open>fire\<close> does
  does not depend on the \<open>gravity\<close> given in the options.
\<close>

theorem driver_step_order:
  "vy (update_particle p) = vy p + 3 / 10 \<and>
   p_x (update_particle p) = p_x p + vx p \<and>
   p_y (update_particle p) = p_y p + (vy p + 3 / 10) \<and>
   rotation (update_particle p) = rotation p + rotationSpeed p \<and>
   life (update_particle p) = life p + 1 \<and>
   particlesRef (fst (animate e (h, w))) =
     (case canvasRef h of
        None \<Rightarrow> particlesRef h
      | Some c \<Rightarrow>
          if context_2d e
          then filter (keep_particle c) (map update_particle (particlesRef h))
          else particlesRef h) \<and>
   fire a e rnd (Some (opts\<lparr>gravity := g\<rparr>)) s = fire a e rnd (Some opts) s"
proof -
  have a: "particlesRef (fst (animate e (h, w))) =
     (case canvasRef h of
        None \<Rightarrow> particlesRef h
      | Some c \<Rightarrow>
          if context_2d e
          then filter (keep_particle c) (map update_particle (particlesRef h))
          else particlesRef h)"
    by (simp add: animate_def Let_def requestAnimationFrame_def split: option.splits)
  have f: "fire a e rnd (Some (opts\<lparr>gravity := g\<rparr>)) s = fire a e rnd (Some opts) s"
    by (cases s) (simp add: fire_def Let_def cong: option.case_cong if_cong)
  from a f show ?thesis by (simp add: update_particle_fields)
qed

theorem driver_step_order_witness:
  "vy (update_particle first_particle) = - 297 / 10 \<and>
   p_x (update_particle first_particle) = 400 \<and>
   p_y (update_particle first_particle) = 4703 / 10 \<and>
   rotation (update_particle first_particle) = pi \<and>
   life (update_particle first_particle) = 1 \<and>
   fire False env_on rnd_half (Some (short_burst\<lparr>gravity := Some 5\<rparr>)) mounted =
     fire False env_on rnd_half (Some short_burst) mounted"
  using driver_step_order [where p = first_particle and a = False and e = env_on and rnd = rnd_half
      and opts = short_burst and g = "Some 5" and s = mounted]
  by (simp add: first_particle_def)

subsection \<open>C9: the fade\<close>

text \<open>
  C9: for every particle spawned by \<open>fire\<close>, alpha does not increase from one driver step to
  the next, and while \<open>life < maxLife\<close> it is the linear fade \<open>1 - life / maxLife\<close> from 1; and
  for every particle with \<open>life \<ge> 0\<close>, a driver step leaves alpha at a value \<open>\<le> 0\<close> only if
  after it \<open>life \<ge> maxLife\<close>.
\<close>

theorem alpha_fade:
  "(p \<in> set (spawned a e rnd options (h, w)) \<longrightarrow>
      alpha ((update_particle ^^ Suc n) p) \<le> alpha ((update_particle ^^ n) p) \<and>
      (real n < maxLife p \<longrightarrow>
         life ((update_particle ^^ n) p) = real n \<and>
         alpha ((update_particle ^^ n) p) = 1 - real n / maxLife p)) \<and>
   (0 \<le> life q \<and> alpha (update_particle q) \<le> 0 \<longrightarrow>
      maxLife q \<le> life (update_particle q))"
proof -
  have a: "alpha ((update_particle ^^ Suc n) p) \<le> alpha ((update_particle ^^ n) p) \<and>
           (real n < maxLife p \<longrightarrow>
              life ((update_particle ^^ n) p) = real n \<and>
              alpha ((update_particle ^^ n) p) = 1 - real n / maxLife p)"
    if mem: "p \<in> set (spawned a e rnd options (h, w))"
  proof -
    from spawned_new_particle [OF mem] obtain c j
      where "p = fst (new_particle
                       (emission_of c (case options of None \<Rightarrow> no_options | Some v \<Rightarrow> v)) rnd j)"
      by auto
    then have l0: "life p = 0" and a1: "alpha p = 1"
      by (simp_all add: new_particle_start)
    have "alpha ((update_particle ^^ Suc n) p) \<le> alpha ((update_particle ^^ n) p)"
      using fade_step [OF fade_iter [OF fade_spawn [OF l0 a1], of n]] by simp
    moreover have "real n < maxLife p \<longrightarrow>
        alpha ((update_particle ^^ n) p) = 1 - real n / maxLife p"
      using iter_alpha_linear [OF l0 a1] by blast
    moreover have "life ((update_particle ^^ n) p) = real n"
      using l0 by (simp add: iter_life)
    ultimately show ?thesis by blast
  qed
  have b: "0 \<le> life q \<and> alpha (update_particle q) \<le> 0 \<longrightarrow>
           maxLife q \<le> life (update_particle q)"
    using alpha_pos_step by blast
  from a b show ?thesis by blast
qed

theorem alpha_fade_witness:
  "hd (spawned False env_on rnd_half (Some short_burst) mounted)
     \<in> set (spawned False env_on rnd_half (Some short_burst) mounted) \<and>
   alpha ((update_particle ^^ 2) first_particle) \<le> alpha (update_particle first_particle) \<and>
   alpha (update_particle first_particle) = 1 - 1 / maxLife first_particle \<and>
   0 \<le> life faded_particle \<and> alpha (update_particle faded_particle) \<le> 0 \<and>
   maxLife faded_particle \<le> life (update_particle faded_particle)"
proof -
  have s: "spawned False env_on rnd_half (Some short_burst) mounted = [first_particle]"
    using fire_short_burst by (simp add: spawned_def mounted_eq)
  have m: "first_particle
             \<in> set (spawned False env_on rnd_half (Some short_burst) (fst mounted, snd mounted))"
    by (simp add: s)
  have l: "real 1 < maxLife first_particle" by (simp add: first_particle_def)
  have f: "0 \<le> life faded_particle \<and> alpha (update_particle faded_particle) \<le> 0"
    by (simp add: faded_particle_def update_particle_def Let_def)
  have two: "(update_particle ^^ 2) first_particle =
             (update_particle ^^ Suc 1) first_particle"
    by (simp add: numeral_2_eq_2)
  show ?thesis
    using alpha_fade [where p = first_particle and a = False and e = env_on and rnd = rnd_half
        and options = "Some short_burst" and h = "fst mounted" and w = "snd mounted"
        and n = 1 and q = faded_particle] m l f s two
    by simp
qed

subsection \<open>C10: before the canvas exists\<close>

text \<open>
  C10: while the canvas reference of the hook is null, \<open>fire\<close> returns at once for every
  options value and every browser: hook and page are as before, so the pool is unchanged,
  no callback is queued, and the motion preference is not consulted (no diagnostic is
  written even when it is active).
\<close>

theorem fire_without_canvas:
  assumes "canvasRef h = None"
  shows "fire a e rnd options (h, w) = (h, w)"
  using assms by (simp add: fire_def Let_def)

theorem fire_without_canvas_witness:
  "canvasRef hook_init = None \<and>
   fire False env_reduced rnd_half (Some hundred) (hook_init, page_init) = (hook_init, page_init) \<and>
   fire False env_on rnd_half (Some hundred) (hook_init, page_init) = (hook_init, page_init)"
proof -
  have c: "canvasRef hook_init = None" by (simp add: hook_init_def)
  show ?thesis
    using fire_without_canvas [OF c, where a = False and e = env_reduced and rnd = rnd_half
        and options = "Some hundred" and w = page_init]
      fire_without_canvas [OF c, where a = False and e = env_on and rnd = rnd_half
        and options = "Some hundred" and w = page_init] c
    by simp
qed

end
